theory Spec2Isabelle
  imports Main
begin

section \<open>Tree model\<close>

text \<open>
  The element classes of EmberLib are not part of the sources at hand; the client
  (EmberClient.js) only calls their methods.  The storage functions below are
  modelled from the specification (sections 3 and 4.C); the element-level
  \<open>update\<close> is kept as a parameter \<open>upd\<close> of the merge functions.
\<close>

datatype ekind = KRoot | KNode | KParameter | KMatrix | KFunction

datatype element =
  Element (number: nat) (qpath: "nat list option") (kind: ekind)
          (ident: "string option") (val: "int option")
          (children: "element list option")

text \<open>Modelled from the spec: \<open>isQualified\<close>, a qualified element carries its absolute path.\<close>

definition isQualified :: "element \<Rightarrow> bool" where
  "isQualified e = (qpath e \<noteq> None)"

text \<open>Modelled from the spec: \<open>getNumber\<close>; the number of a qualified element with
  path \<open>p.q.r\<close> is \<open>r\<close> (tree invariant 3).\<close>

definition getNumber :: "element \<Rightarrow> nat" where
  "getNumber e = (case qpath e of None \<Rightarrow> number e | Some p \<Rightarrow> (if p = [] then 0 else last p))"

definition getChildren :: "element \<Rightarrow> element list option" where
  "getChildren e = children e"

text \<open>Modelled from the spec: \<open>getElementByNumber(n)\<close> returns at most one child.\<close>

fun findNumber :: "nat \<Rightarrow> element list \<Rightarrow> element option" where
  "findNumber n [] = None"
| "findNumber n (c # cs) = (if getNumber c = n then Some c else findNumber n cs)"

definition getElementByNumber :: "element \<Rightarrow> nat \<Rightarrow> element option" where
  "getElementByNumber e n = (case children e of None \<Rightarrow> None | Some cs \<Rightarrow> findNumber n cs)"

text \<open>Modelled from the spec: \<open>getElementByPath(p)\<close> walks the dotted numeric path,
  one \<open>getElementByNumber\<close> per segment, and returns nil on a miss.  A dotted path
  string \<open>1.3.2\<close> is represented by its list of segments \<open>[1, 3, 2]\<close>.\<close>

fun walk :: "element \<Rightarrow> nat list \<Rightarrow> element option" where
  "walk e [] = Some e"
| "walk e (n # ns) = (case getElementByNumber e n of None \<Rightarrow> None | Some c \<Rightarrow> walk c ns)"

text \<open>A receiver inside the tree is identified by its position \<open>q\<close> (the numbers
  leading to it from the root).  Paths handed to \<open>getElementByPath\<close> by the client are
  absolute, so a receiver at \<open>q\<close> answers only for paths that extend \<open>q\<close>.\<close>

definition getElementByPath :: "element \<Rightarrow> nat list \<Rightarrow> nat list \<Rightarrow> element option" where
  "getElementByPath root q p = (if take (length q) p = q then walk root p else None)"

fun modifyChild :: "nat \<Rightarrow> (element \<Rightarrow> element) \<Rightarrow> element list \<Rightarrow> element list" where
  "modifyChild n f [] = []"
| "modifyChild n f (c # cs) = (if getNumber c = n then f c # cs else c # modifyChild n f cs)"

definition setChildren :: "element \<Rightarrow> element list option \<Rightarrow> element" where
  "setChildren e cs = Element (number e) (qpath e) (kind e) (ident e) (val e) cs"

text \<open>In-place mutation of the element at position \<open>q\<close>.\<close>

primrec modifyAt :: "nat list \<Rightarrow> (element \<Rightarrow> element) \<Rightarrow> element \<Rightarrow> element" where
  "modifyAt [] f = f"
| "modifyAt (n # ns) f =
     (\<lambda>e. setChildren e (map_option (modifyChild n (modifyAt ns f)) (children e)))"

datatype error =
    EmberTimeoutError nat
  | DuplicateNumber
  | InvalidConnection
  | SourcesNotArray
  | EmberAccessError
  | TransportError
  | Error string

text \<open>Modelled from the spec: \<open>addChild(node)\<close> attaches the node to the receiver and
  fails with \<open>DuplicateNumber\<close> if a sibling with the same number exists.\<close>

definition appendChild :: "element \<Rightarrow> element \<Rightarrow> element" where
  "appendChild node e =
     setChildren e (Some ((case children e of None \<Rightarrow> [] | Some cs \<Rightarrow> cs) @ [node]))"

definition addChild :: "element \<Rightarrow> nat list \<Rightarrow> element \<Rightarrow> error + element" where
  "addChild root q node =
     (case walk root q of
        None \<Rightarrow> Inr root
      | Some parent \<Rightarrow>
          (if getElementByNumber parent (getNumber node) \<noteq> None then Inl DuplicateNumber
           else Inr (modifyAt q (appendChild node) root)))"


section \<open>Merging inbound fragments (EmberClient.js, lines 161-247)\<close>

datatype mevent =
    AddChild "nat list" element
  | Update "nat list" element
  | ValueChange "nat list" element

text \<open>The local tree, the ordered trace of mutations and emissions, and the exception
  (if any) that stopped the merge.\<close>

record mstate =
  tree :: element
  evs :: "mevent list"
  exn :: "error option"

definition emit :: "mevent \<Rightarrow> mstate \<Rightarrow> mstate" where
  "emit ev st = st\<lparr>evs := evs st @ [ev]\<rparr>"

text \<open>\<open>_handleNode(parent, node)\<close>; \<open>pp\<close> is the position of \<open>parent\<close>.\<close>

fun handleNode :: "(element \<Rightarrow> element \<Rightarrow> element) \<Rightarrow> nat list \<Rightarrow> element \<Rightarrow> mstate \<Rightarrow> mstate" where
  "handleNode upd pp (Element nr qp k i v chs) st =
     (let node = Element nr qp k i v chs;
          num = getNumber node;
          st1 = (case Option.bind (walk (tree st) pp) (\<lambda>parent. getElementByNumber parent num) of
                   None \<Rightarrow> emit (AddChild pp node) (st\<lparr>tree := modifyAt pp (appendChild node) (tree st)\<rparr>)
                 | Some n \<Rightarrow> emit (Update (pp @ [num]) node)
                               (st\<lparr>tree := modifyAt (pp @ [num]) (\<lambda>n. upd n node) (tree st)\<rparr>))
      in case chs of
           Some cs \<Rightarrow> fold (handleNode upd (pp @ [num])) cs st1
         | None \<Rightarrow> emit (ValueChange (pp @ [num]) node) st1)"

text \<open>\<open>_handleQualifiedNode(parent, node)\<close>; \<open>pq\<close> is the position of \<open>parent\<close>.
  A path string with no dot splits into one segment, the empty string included, hence
  the test \<open>length p \<le> 1\<close> for \<open>path.length === 1\<close>.\<close>

fun handleQualifiedNode :: "(element \<Rightarrow> element \<Rightarrow> element) \<Rightarrow> nat list \<Rightarrow> element \<Rightarrow> mstate \<Rightarrow> mstate" where
  "handleQualifiedNode upd pq (Element nr qp k i v chs) st =
     (let node = Element nr qp k i v chs;
          p = (case qp of None \<Rightarrow> [] | Some p \<Rightarrow> p);
          r =
            (if getElementByPath (tree st) pq p \<noteq> None then
               Some (p, (emit (Update p node) (emit (ValueChange p node) st))
                           \<lparr>tree := modifyAt p (\<lambda>e. upd e node) (tree st)\<rparr>)
             else if length p \<le> 1 then
               (case addChild (tree st) [] node of
                  Inl e \<Rightarrow> Some ([getNumber node], st\<lparr>exn := Some e\<rparr>)
                | Inr t \<Rightarrow> Some ([getNumber node], emit (AddChild [] node) (st\<lparr>tree := t\<rparr>)))
             else
               (case getElementByPath (tree st) [] (butlast p) of
                  None \<Rightarrow> None
                | Some parent \<Rightarrow>
                    (case addChild (tree st) (butlast p) node of
                       Inl e \<Rightarrow> Some (p, st\<lparr>exn := Some e\<rparr>)
                     | Inr t \<Rightarrow>
                         Some (p, emit (Update (butlast p) parent)
                                   (emit (AddChild (butlast p) node)
                                     (st\<lparr>tree := modifyAt (butlast p) (\<lambda>e. upd e e) t\<rparr>))))))
      in case r of
           None \<Rightarrow> st
         | Some (pos, st2) \<Rightarrow>
             (case chs of
                None \<Rightarrow> st2
              | Some cs \<Rightarrow>
                  fold (\<lambda>c s. if exn s \<noteq> None then s
                              else if isQualified c then handleQualifiedNode upd pos c s
                              else handleNode upd pos c s) cs st2))"

text \<open>The merging part of \<open>_handleRoot(root)\<close>: \<open>this.root.update(root)\<close>, then one
  call per element of the received root.  The exception of a failed \<open>addChild\<close> ends
  the loop.  (The call of \<open>this._callback\<close> that closes \<open>_handleRoot\<close> is part of
  the session model below.)\<close>

definition handleElement :: "(element \<Rightarrow> element \<Rightarrow> element) \<Rightarrow> element \<Rightarrow> mstate \<Rightarrow> mstate" where
  "handleElement upd el s =
     (if exn s \<noteq> None then s
      else if isQualified el then handleQualifiedNode upd [] el s
      else handleNode upd [] el s)"

text \<open>Modelled from the spec: every child stores \<open>_parent\<close>; the decoder makes the
  received root the parent of its elements and \<open>addChild\<close> makes the receiver the
  parent.  An element of the received root therefore ends with a parent that is not a
  \<open>Root\<close> exactly when \<open>_handleQualifiedNode\<close> attaches it below a tree element.\<close>

definition adopted :: "element \<Rightarrow> element \<Rightarrow> bool" where
  "adopted t el =
     (case qpath el of
        None \<Rightarrow> False
      | Some p \<Rightarrow> getElementByPath t [] p = None \<and> \<not> length p \<le> 1
                   \<and> getElementByPath t [] (butlast p) \<noteq> None)"

definition mergeStep :: "(element \<Rightarrow> element \<Rightarrow> element) \<Rightarrow> element \<Rightarrow> mstate \<times> bool list \<Rightarrow> mstate \<times> bool list" where
  "mergeStep upd el acc =
     (case acc of (st, flags) \<Rightarrow>
        (handleElement upd el st, flags @ [exn st \<noteq> None \<or> \<not> adopted (tree st) el]))"

definition mergeRoot :: "(element \<Rightarrow> element \<Rightarrow> element) \<Rightarrow> element \<Rightarrow> element \<Rightarrow> mstate \<times> bool list" where
  "mergeRoot upd local root =
     (let st = \<lparr>tree = upd local root, evs = [], exn = None\<rparr>
      in case getChildren root of
           None \<Rightarrow> (st, [])
         | Some elements \<Rightarrow> fold (mergeStep upd) elements (st, []))"

section \<open>Session state and request pipeline (EmberClient.js, lines 21-154)\<close>

text \<open>What the client reads of the node a request targets: \<open>getPath()\<close>, the element
  class (\<open>isRoot\<close>, \<open>isParameter\<close>, \<open>isMatrix\<close>, \<open>instanceof Parameter\<close>),
  \<open>isStream()\<close> and, for a matrix, the declared counts.\<close>

record TreeNode =
  npath :: "nat list"
  nkind :: ekind
  nstream :: bool
  targetCount :: int
  sourceCount :: int

definition isRoot :: "TreeNode \<Rightarrow> bool" where "isRoot n = (nkind n = KRoot)"
definition isParameter :: "TreeNode \<Rightarrow> bool" where "isParameter n = (nkind n = KParameter)"
definition isMatrix :: "TreeNode \<Rightarrow> bool" where "isMatrix n = (nkind n = KMatrix)"
definition isStream :: "TreeNode \<Rightarrow> bool" where "isStream n = nstream n"

definition rootNode :: TreeNode where
  "rootNode = \<lparr>npath = [], nkind = KRoot, nstream = False, targetCount = 0, sourceCount = 0\<rparr>"

datatype MatrixOperation = absolute | connect | disconnect

text \<open>The six closures handed to \<open>addRequest\<close>, by the operation that builds them.\<close>

datatype reqkind =
    GetDirectory
  | SetValue int
  | Invoke "int list"
  | MatrixOp int "int list" MatrixOperation
  | Subscribe nat
  | Unsubscribe nat

record request =
  node :: TreeNode
  op :: reqkind
  waiter :: nat
  timeoutError :: "error option"

datatype message =
    MGetDirectory "nat list"
  | MSetValue "nat list" int
  | MInvoke "nat list" nat "int list"
  | MConnect "nat list" int "int list" MatrixOperation
  | MSubscribe "nat list" nat
  | MUnsubscribe "nat list" nat

datatype inbound = InvocationResult nat "int list" | RootMsg element

datatype result = RNone | RInbound inbound | RElement element

text \<open>The first argument of \<open>this._callback\<close>: absent, \<open>null\<close>, or an error object.\<close>

datatype cberr = Undefined | Null | Err error

datatype callback =
    CbConnect nat
  | CbGetDirectory TreeNode nat
  | CbInvoke nat
  | CbMatrix TreeNode nat
  | CbSetValue nat

datatype event =
    Sent message
  | Resolved nat result
  | Rejected nat cberr
  | MakingRequest nat "nat list"
  | EmitInvocationResult inbound
  | Merged "mevent list"
  | AddCallback "nat list" nat

record client =
  pendingRequests :: "request list"
  activeRequest :: "request option"
  timeout :: bool
  callback :: "callback option"
  requestID :: nat
  root :: element
  invocationId :: nat
  promises :: nat
  events :: "event list"

definition emptyRoot :: element where
  "emptyRoot = Element 0 None KRoot None None None"

definition newClient :: client where
  "newClient = \<lparr>pendingRequests = [], activeRequest = None, timeout = False, callback = None,
     requestID = 0, root = emptyRoot, invocationId = 0, promises = 0, events = []\<rparr>"

definition log :: "event \<Rightarrow> client \<Rightarrow> client" where
  "log ev s = s\<lparr>events := events s @ [ev]\<rparr>"

definition clearTimeout :: "client \<Rightarrow> client" where
  "clearTimeout s = s\<lparr>timeout := False\<rparr>"

text \<open>\<open>this._client.sendBERNode(...)\<close> of each closure.  Modelled from the spec:
  \<open>invoke\<close> carries a client-allocated, increasing invocation id.  The transport
  and the request builders of EmberLib (\<open>getDirectory\<close>, \<open>setValue\<close>, \<open>invoke\<close>,
  \<open>connect\<close>, \<open>subscribe\<close>, \<open>unsubscribe\<close>) are taken not to throw, so the
  \<open>catch\<close> of \<open>_finishRequest\<close> is never entered.\<close>

definition send :: "request \<Rightarrow> client \<Rightarrow> client" where
  "send r s =
     (case op r of
        GetDirectory \<Rightarrow> log (Sent (MGetDirectory (npath (node r)))) s
      | SetValue v \<Rightarrow> log (Sent (MSetValue (npath (node r)) v)) s
      | Invoke params \<Rightarrow>
          log (Sent (MInvoke (npath (node r)) (invocationId s) params))
            (s\<lparr>invocationId := Suc (invocationId s)\<rparr>)
      | MatrixOp t srcs mo \<Rightarrow> log (Sent (MConnect (npath (node r)) t srcs mo)) s
      | Subscribe cb \<Rightarrow> log (Sent (MSubscribe (npath (node r)) cb)) s
      | Unsubscribe cb \<Rightarrow> log (Sent (MUnsubscribe (npath (node r)) cb)) s)"

definition installCallback :: "request \<Rightarrow> client \<Rightarrow> client" where
  "installCallback r s =
     (case op r of
        GetDirectory \<Rightarrow> s\<lparr>callback := Some (CbGetDirectory (node r) (waiter r))\<rparr>
      | SetValue v \<Rightarrow> s\<lparr>callback := Some (CbSetValue (waiter r))\<rparr>
      | Invoke params \<Rightarrow> s\<lparr>callback := Some (CbInvoke (waiter r))\<rparr>
      | MatrixOp t srcs mo \<Rightarrow> s\<lparr>callback := Some (CbMatrix (node r) (waiter r))\<rparr>
      | Subscribe cb \<Rightarrow> s
      | Unsubscribe cb \<Rightarrow> s)"

text \<open>\<open>_makeRequest\<close>, \<open>_finishRequest\<close> and the closure \<open>func\<close> of a request call
  one another: a subscribe closure finishes its own request, which starts the next one.
  \<open>func r e\<close> is \<open>r.func(e)\<close>; \<open>e = None\<close> is the call without argument.\<close>

function makeRequest :: "client \<Rightarrow> client"
  and finishRequest :: "client \<Rightarrow> client"
  and func :: "request \<Rightarrow> error option \<Rightarrow> client \<Rightarrow> client"
where
  "makeRequest s =
     (case pendingRequests s of
        [] \<Rightarrow> s
      | r # rest \<Rightarrow>
          (if activeRequest s = None then
             (let r' = r\<lparr>timeoutError := Some (EmberTimeoutError (requestID s))\<rparr>
              in func r' None
                   (log (MakingRequest (requestID s) (npath (node r)))
                      (s\<lparr>activeRequest := Some r', pendingRequests := rest,
                         requestID := Suc (requestID s), timeout := True\<rparr>)))
           else s))"
| "finishRequest s = makeRequest ((clearTimeout s)\<lparr>activeRequest := None\<rparr>)"
| "func r e s =
     (case op r of
        GetDirectory \<Rightarrow>
          (case e of
             Some err \<Rightarrow> log (Rejected (waiter r) (Err err)) (finishRequest s)
           | None \<Rightarrow> send r (installCallback r s))
      | SetValue v \<Rightarrow>
          (case e of
             Some err \<Rightarrow> log (Rejected (waiter r) (Err err)) (finishRequest s)
           | None \<Rightarrow> send r (installCallback r s))
      | Invoke params \<Rightarrow>
          (case e of
             Some err \<Rightarrow> finishRequest (log (Rejected (waiter r) (Err err)) s)
           | None \<Rightarrow> send r (installCallback r s))
      | MatrixOp t srcs mo \<Rightarrow>
          (case e of
             Some err \<Rightarrow> log (Rejected (waiter r) (Err err)) (finishRequest s)
           | None \<Rightarrow> send r (installCallback r s))
      | Subscribe cb \<Rightarrow>
          (case e of
             Some err \<Rightarrow> log (Rejected (waiter r) (Err err)) s
           | None \<Rightarrow> log (Resolved (waiter r) RNone) (finishRequest (send r s)))
      | Unsubscribe cb \<Rightarrow>
          (case e of
             Some err \<Rightarrow> log (Rejected (waiter r) (Err err)) s
           | None \<Rightarrow> log (Resolved (waiter r) RNone) (finishRequest (send r s))))"
  by pat_completeness auto


termination
  by (relation "measure (\<lambda>x. case x of
          Inl s \<Rightarrow> 3 * length (pendingRequests s)
        | Inr (Inl s) \<Rightarrow> 3 * length (pendingRequests s) + 1
        | Inr (Inr (r, e, s)) \<Rightarrow> 3 * length (pendingRequests s) + 2)")
     (auto simp: clearTimeout_def send_def log_def)


declare makeRequest.simps [simp del] finishRequest.simps [simp del] func.simps [simp del]

definition addRequest :: "request \<Rightarrow> client \<Rightarrow> client" where
  "addRequest req s = makeRequest (s\<lparr>pendingRequests := pendingRequests s @ [req]\<rparr>)"

text \<open>\<open>_timeoutRequest\<close>, run by the timer armed in \<open>_makeRequest\<close>.  The timer is
  cleared whenever the active request is reset, so it fires with a request active; the
  model does nothing otherwise.\<close>

definition timeoutRequest :: "client \<Rightarrow> client" where
  "timeoutRequest s =
     (case activeRequest s of
        None \<Rightarrow> s
      | Some r \<Rightarrow> func r (timeoutError r) s)"

section \<open>Path strings (EmberClient.js, lines 733-735)\<close>

definition digit :: "nat \<Rightarrow> char" where
  "digit d = char_of (48 + d)"

fun showNat :: "nat \<Rightarrow> string" where
  "showNat n = (if n < 10 then [digit n] else showNat (n div 10) @ [digit (n mod 10)])"

declare showNat.simps [simp del]

text \<open>Modelled from the spec: \<open>getPath()\<close> is the dotted numeric path.\<close>

fun pathString :: "nat list \<Rightarrow> string" where
  "pathString [] = []"
| "pathString [n] = showNat n"
| "pathString (n # ns) = showNat n @ ''.'' @ pathString ns"

text \<open>\<open>String.prototype.lastIndexOf\<close> (\<open>-1\<close> when absent) and \<open>startsWith\<close>.\<close>

fun lastIndexOf :: "char \<Rightarrow> string \<Rightarrow> int" where
  "lastIndexOf c [] = - 1"
| "lastIndexOf c (x # xs) =
     (let r = lastIndexOf c xs
      in if 0 \<le> r then r + 1 else if x = c then 0 else - 1)"

definition startsWith :: "string \<Rightarrow> string \<Rightarrow> bool" where
  "startsWith s pre = (take (length pre) s = pre)"

definition isDirectSubPathOf :: "string \<Rightarrow> string \<Rightarrow> bool" where
  "isDirectSubPathOf path parent =
     (path = parent \<or>
      (lastIndexOf (CHR ''.'') path = int (length parent) \<and> startsWith path parent))"

section \<open>Response callbacks (EmberClient.js, lines 255-261, 335-388, 511-522, 568-594, 661-670)\<close>

text \<open>The second argument of \<open>this._callback\<close>: the inbound object together with, for
  each element of a received root, whether \<open>el._parent instanceof ember.Root\<close> holds
  when the callback runs.\<close>

datatype received = Received inbound "bool list"

text \<open>Modelled from the spec: \<open>getPath()\<close> of an element reached at position \<open>pos\<close>:
  a qualified element answers with the path it carries.\<close>

definition getPathAt :: "nat list \<Rightarrow> element \<Rightarrow> nat list" where
  "getPathAt pos el = (case qpath el of None \<Rightarrow> pos | Some p \<Rightarrow> p)"

definition truthy :: "cberr \<Rightarrow> bool" where
  "truthy e = (case e of Err x \<Rightarrow> True | _ \<Rightarrow> False)"

text \<open>The test that decides whether the \<open>getDirectory\<close> callback resolves on a
  received root \<open>r\<close>; \<open>localChildren\<close> is \<open>qnode.getChildren()\<close> of the local root.\<close>

definition rootMatch :: "element list option \<Rightarrow> element \<Rightarrow> bool list \<Rightarrow> bool" where
  "rootMatch localChildren r parents =
     (case localChildren of
        None \<Rightarrow> False
      | Some elements \<Rightarrow>
          (if elements = [] then False
           else (case getChildren r of
                   None \<Rightarrow> False
                 | Some nodeElements \<Rightarrow> list_all (\<lambda>b. b) parents)))"

definition pathMatch :: "TreeNode \<Rightarrow> element \<Rightarrow> bool" where
  "pathMatch qnode r =
     (let requestedPath = npath qnode in
      if getElementByPath r [] requestedPath \<noteq> None then True
      else (case getChildren r of
              None \<Rightarrow> False
            | Some nodeElements \<Rightarrow>
                (isMatrix qnode \<and> length nodeElements = 1
                   \<and> pathString (getPathAt [getNumber (hd nodeElements)] (hd nodeElements))
                       = pathString requestedPath)
                \<or> (\<not> isMatrix qnode
                   \<and> list_all (\<lambda>el. isDirectSubPathOf (pathString (getPathAt [getNumber el] el))
                                       (pathString requestedPath)) nodeElements)))"

definition matrixMatch :: "TreeNode \<Rightarrow> element \<Rightarrow> element option" where
  "matrixMatch matrixNode r =
     (case getElementByPath r [] (npath matrixNode) of
        None \<Rightarrow> None
      | Some matrix \<Rightarrow>
          (if kind matrix = KMatrix
              \<and> pathString (getPathAt (npath matrixNode) matrix) = pathString (npath matrixNode)
           then Some matrix else None))"

text \<open>\<open>this._callback(error, node)\<close>.  An \<open>InvocationResult\<close> has neither
  \<open>getChildren\<close> nor \<open>getElementByPath\<close>: the \<open>getDirectory\<close> and matrix callbacks
  throw on it, the handler of \<open>emberTree\<close> catches and calls the callback again with
  the exception alone, which returns at once; the session is left as it was.  The same
  holds for the self-calls \<open>this._callback(new Error(...))\<close> of the \<open>getDirectory\<close>
  callback.\<close>

definition callCallback :: "callback \<Rightarrow> cberr \<Rightarrow> received option \<Rightarrow> client \<Rightarrow> client" where
  "callCallback cb e nd s =
     (case cb of
        CbConnect w \<Rightarrow>
          (if e = Undefined then log (Resolved w RNone) (s\<lparr>callback := None\<rparr>)
           else log (Rejected w e) (s\<lparr>callback := None\<rparr>))
      | CbGetDirectory qnode w \<Rightarrow>
          (case nd of
             None \<Rightarrow> s
           | Some (Received msg parents) \<Rightarrow>
               (if truthy e then log (Rejected w e) (finishRequest (clearTimeout s))
                else (case msg of
                        InvocationResult i res \<Rightarrow> s
                      | RootMsg r \<Rightarrow>
                          (if (if isRoot qnode then rootMatch (getChildren (root s)) r parents
                               else pathMatch qnode r)
                           then log (Resolved w (RInbound msg)) (finishRequest (clearTimeout s))
                           else s))))
      | CbInvoke w \<Rightarrow>
          (if truthy e then finishRequest (log (Rejected w e) (clearTimeout s))
           else finishRequest
                  (log (Resolved w (case nd of None \<Rightarrow> RNone | Some (Received msg parents) \<Rightarrow> RInbound msg))
                     (clearTimeout s)))
      | CbMatrix matrixNode w \<Rightarrow>
          (case nd of
             None \<Rightarrow> s
           | Some (Received msg parents) \<Rightarrow>
               (if truthy e then log (Rejected w e) (finishRequest (clearTimeout s))
                else (case msg of
                        InvocationResult i res \<Rightarrow> s
                      | RootMsg r \<Rightarrow>
                          (case matrixMatch matrixNode r of
                             Some matrix \<Rightarrow> log (Resolved w (RElement matrix)) (finishRequest (clearTimeout s))
                           | None \<Rightarrow> s))))
      | CbSetValue w \<Rightarrow>
          (if truthy e then log (Rejected w e) (finishRequest (clearTimeout s))
           else log (Resolved w (case nd of None \<Rightarrow> RNone | Some (Received msg parents) \<Rightarrow> RInbound msg))
                  (finishRequest (clearTimeout s))))"

definition invokeCallback :: "cberr \<Rightarrow> received option \<Rightarrow> client \<Rightarrow> client" where
  "invokeCallback e nd s = (case callback s of None \<Rightarrow> s | Some cb \<Rightarrow> callCallback cb e nd s)"

section \<open>Transport events (EmberClient.js, lines 44-86)\<close>

text \<open>The handler of \<open>emberTree\<close>.  \<open>_handleRoot\<close> merges and calls the callback with
  \<open>(null, root)\<close>; the handler then calls it with \<open>(undefined, root)\<close>.  An exception
  of the merge skips both calls and reaches the callback as \<open>(e)\<close>.\<close>

definition emberTree :: "(element \<Rightarrow> element \<Rightarrow> element) \<Rightarrow> inbound \<Rightarrow> client \<Rightarrow> client" where
  "emberTree upd msg s =
     (case msg of
        InvocationResult i res \<Rightarrow>
          invokeCallback Undefined (Some (Received msg [])) (log (EmitInvocationResult msg) s)
      | RootMsg r \<Rightarrow>
          (case mergeRoot upd (root s) r of (st, parents) \<Rightarrow>
             (let s1 = log (Merged (evs st)) (s\<lparr>root := tree st\<rparr>) in
              case exn st of
                Some ex \<Rightarrow> invokeCallback (Err ex) None s1
              | None \<Rightarrow>
                  invokeCallback Undefined (Some (Received msg parents))
                    (invokeCallback Null (Some (Received msg parents)) s1))))"

definition connected :: "client \<Rightarrow> client" where
  "connected s = invokeCallback Undefined None s"

definition socketError :: "error \<Rightarrow> client \<Rightarrow> client" where
  "socketError e s = invokeCallback (Err e) None s"


section \<open>Client operations (EmberClient.js, lines 253-267, 322-393, 503-730)\<close>

text \<open>Every operation that builds a promise takes the next promise number as the
  identity of its waiter and returns it; \<open>None\<close> is a return of \<open>undefined\<close>.\<close>

definition newRequest :: "TreeNode \<Rightarrow> reqkind \<Rightarrow> client \<Rightarrow> request" where
  "newRequest n k s = \<lparr>node = n, op = k, waiter = promises s, timeoutError = None\<rparr>"

definition newPromise :: "client \<Rightarrow> client" where
  "newPromise s = s\<lparr>promises := Suc (promises s)\<rparr>"

definition connect_op :: "client \<Rightarrow> nat \<times> client" where
  "connect_op s = (promises s, (newPromise s)\<lparr>callback := Some (CbConnect (promises s))\<rparr>)"

text \<open>Modelled from the spec: \<open>clear()\<close> on the root destroys its children.\<close>

definition clear :: "element \<Rightarrow> element" where
  "clear e = setChildren e None"

definition getDirectory :: "TreeNode option \<Rightarrow> client \<Rightarrow> nat \<times> client" where
  "getDirectory qnode s =
     (case qnode of
        None \<Rightarrow> (promises s, addRequest (newRequest rootNode GetDirectory s)
                                 (newPromise (s\<lparr>root := clear (root s)\<rparr>)))
      | Some q \<Rightarrow> (promises s, addRequest (newRequest q GetDirectory s) (newPromise s)))"

definition invokeFunction :: "TreeNode \<Rightarrow> int list \<Rightarrow> client \<Rightarrow> nat \<times> client" where
  "invokeFunction fnNode params s =
     (promises s, addRequest (newRequest fnNode (Invoke params) s) (newPromise s))"

text \<open>Modelled from the spec: \<open>validateConnection\<close> checks the target and source ids
  against the declared \<open>targetCount\<close> and \<open>sourceCount\<close> and fails with
  \<open>InvalidConnection\<close> on an id out of range.\<close>

definition inRange :: "int \<Rightarrow> int \<Rightarrow> bool" where
  "inRange bound x = (0 \<le> x \<and> x < bound)"

definition validateConnection :: "TreeNode \<Rightarrow> int \<Rightarrow> int list \<Rightarrow> error option" where
  "validateConnection m targetID sources =
     (if inRange (targetCount m) targetID \<and> list_all (inRange (sourceCount m)) sources
      then None else Some InvalidConnection)"

text \<open>\<open>sources = None\<close> is a value for which \<open>Array.isArray\<close> is false.\<close>

definition matrixOPeration ::
  "TreeNode \<Rightarrow> int \<Rightarrow> int list option \<Rightarrow> MatrixOperation \<Rightarrow> client \<Rightarrow> nat \<times> client" where
  "matrixOPeration matrixNode targetID sources operation s =
     (promises s,
      (case sources of
         None \<Rightarrow> log (Rejected (promises s) (Err SourcesNotArray)) (newPromise s)
       | Some srcs \<Rightarrow>
           (case validateConnection matrixNode targetID srcs of
              Some e \<Rightarrow> log (Rejected (promises s) (Err e)) (newPromise s)
            | None \<Rightarrow>
                addRequest (newRequest matrixNode (MatrixOp targetID srcs operation) s)
                  (newPromise s))))"




definition setValue :: "TreeNode \<Rightarrow> int \<Rightarrow> client \<Rightarrow> nat \<times> client" where
  "setValue n v s =
     (promises s,
      (if nkind n \<noteq> KParameter then log (Rejected (promises s) (Err EmberAccessError)) (newPromise s)
       else addRequest (newRequest n (SetValue v) s) (newPromise s)))"

definition subscribe :: "TreeNode \<Rightarrow> nat \<Rightarrow> client \<Rightarrow> nat option \<times> client" where
  "subscribe qnode cb s =
     (if (isParameter qnode \<or> isMatrix qnode) \<and> isStream qnode then
        (Some (promises s), addRequest (newRequest qnode (Subscribe cb) s) (newPromise s))
      else (None, log (AddCallback (npath qnode) cb) s))"

definition unsubscribe :: "TreeNode \<Rightarrow> nat \<Rightarrow> client \<Rightarrow> nat option \<times> client" where
  "unsubscribe qnode cb s =
     (if isParameter qnode \<and> isStream qnode then
        (Some (promises s), addRequest (newRequest qnode (Unsubscribe cb) s) (newPromise s))
      else (None, s))"

text \<open>The stimuli of a session: calls of the operations, transport events and the
  expiry of the armed timer.\<close>

datatype stimulus =
    SConnect
  | SConnected
  | SError error
  | SEmberTree inbound
  | STimeout
  | SGetDirectory "TreeNode option"
  | SInvokeFunction TreeNode "int list"
  | SMatrixOPeration TreeNode int "int list option" MatrixOperation
  | SSetValue TreeNode int
  | SSubscribe TreeNode nat
  | SUnsubscribe TreeNode nat

definition step :: "(element \<Rightarrow> element \<Rightarrow> element) \<Rightarrow> stimulus \<Rightarrow> client \<Rightarrow> client" where
  "step upd st s =
     (case st of
        SConnect \<Rightarrow> snd (connect_op s)
      | SConnected \<Rightarrow> connected s
      | SError e \<Rightarrow> socketError e s
      | SEmberTree msg \<Rightarrow> emberTree upd msg s
      | STimeout \<Rightarrow> timeoutRequest s
      | SGetDirectory qnode \<Rightarrow> snd (getDirectory qnode s)
      | SInvokeFunction fnNode params \<Rightarrow> snd (invokeFunction fnNode params s)
      | SMatrixOPeration m t srcs mo \<Rightarrow> snd (matrixOPeration m t srcs mo s)
      | SSetValue n v \<Rightarrow> snd (setValue n v s)
      | SSubscribe qnode cb \<Rightarrow> snd (subscribe qnode cb s)
      | SUnsubscribe qnode cb \<Rightarrow> snd (unsubscribe qnode cb s))"

text \<open>The timer can expire only while it is armed.\<close>

definition enabled :: "stimulus \<Rightarrow> client \<Rightarrow> bool" where
  "enabled st s = (case st of STimeout \<Rightarrow> timeout s | _ \<Rightarrow> True)"


inductive reachable :: "(element \<Rightarrow> element \<Rightarrow> element) \<Rightarrow> client \<Rightarrow> bool"
  for upd :: "element \<Rightarrow> element \<Rightarrow> element" where
  r_new: "reachable upd newClient"
| r_step: "reachable upd s \<Longrightarrow> enabled st s \<Longrightarrow> reachable upd (step upd st s)"

section \<open>Pipeline invariants\<close>

text \<open>The closures of \<open>subscribe\<close> and \<open>unsubscribe\<close> finish their request in the
  call that sends it.\<close>

definition synchronous :: "reqkind \<Rightarrow> bool" where
  "synchronous k = (case k of Subscribe cb \<Rightarrow> True | Unsubscribe cb \<Rightarrow> True | _ \<Rightarrow> False)"

definition pipelineInv :: "client \<Rightarrow> bool" where
  "pipelineInv s =
     (case activeRequest s of
        None \<Rightarrow> pendingRequests s = [] \<and> \<not> timeout s
      | Some r \<Rightarrow> \<not> synchronous (op r) \<and> timeoutError r \<noteq> None)"

definition startable :: "client \<Rightarrow> bool" where
  "startable s =
     (case activeRequest s of
        None \<Rightarrow> \<not> timeout s
      | Some r \<Rightarrow> \<not> synchronous (op r) \<and> timeoutError r \<noteq> None)"

text \<open>The messages written to the transport, in order.\<close>

definition sentOf :: "event list \<Rightarrow> message list" where
  "sentOf evl = concat (map (\<lambda>ev. case ev of Sent m \<Rightarrow> [m] | _ \<Rightarrow> []) evl)"

text \<open>\<open>balanced s s' k\<close>: from \<open>s\<close> to \<open>s'\<close> the trace only grows, and the messages
  written exceed the requests started by \<open>k\<close>.\<close>

definition balanced :: "client \<Rightarrow> client \<Rightarrow> nat \<Rightarrow> bool" where
  "balanced s s' k =
     (\<exists>evl. events s' = events s @ evl \<and> length (sentOf evl) + requestID s = requestID s' + k)"

section \<open>The match of a \<open>getDirectory\<close> response, in words\<close>



section \<open>Paths kept by a merge\<close>



definition extends :: "element \<Rightarrow> element \<Rightarrow> bool" where
  "extends t t' = (\<forall>p. walk t p \<noteq> None \<longrightarrow> walk t' p \<noteq> None)"



section \<open>Path discovery (EmberClient.js, lines 416-496)\<close>

text \<open>\<open>String.prototype.split\<close> on a one-character separator and
  \<open>Array.prototype.join\<close>.\<close>

fun split :: "char \<Rightarrow> string \<Rightarrow> string list" where
  "split c [] = [Nil]"
| "split c (x # xs) =
     (if x = c then [] # split c xs
      else (case split c xs of [] \<Rightarrow> [x] # [] | w # ws \<Rightarrow> (x # w) # ws))"

fun join :: "string \<Rightarrow> string list \<Rightarrow> string" where
  "join sep [] = []"
| "join sep [x] = x"
| "join sep (x # xs) = x @ sep @ join sep xs"

text \<open>The error objects are built before \<open>var pos = 0\<close> has run, while the hoisted
  \<open>pos\<close> is still \<open>undefined\<close>: \<open>pos + 1\<close> is \<open>NaN\<close>, \<open>slice(0, NaN)\<close> is
  empty and \<open>slice(0, undefined)\<close> is the whole array.\<close>

datatype jsval = JUndefined | JNaN | JNum nat

definition plusOne :: "jsval \<Rightarrow> jsval" where
  "plusOne v = (case v of JNum n \<Rightarrow> JNum (n + 1) | _ \<Rightarrow> JNaN)"

definition slice0 :: "'a list \<Rightarrow> jsval \<Rightarrow> 'a list" where
  "slice0 xs v = (case v of JUndefined \<Rightarrow> xs | JNaN \<Rightarrow> [] | JNum n \<Rightarrow> take n xs)"

definition pathError :: "string list \<Rightarrow> error" where
  "pathError path = Error (''Failed path discovery at '' @ join ''/'' (slice0 path (plusOne JUndefined)))"

definition pathnumError :: "string list \<Rightarrow> error" where
  "pathnumError path = Error (''Failed path discovery at '' @ join ''/'' (slice0 path JUndefined))"

text \<open>\<open>path[pos]\<close>, \<open>undefined\<close> beyond the end.\<close>

definition at :: "'a list \<Rightarrow> nat \<Rightarrow> 'a option" where
  "at xs i = (if i < length xs then Some (xs ! i) else None)"

text \<open>The loop over the children of \<open>currentNode\<close>: the first child whose contents
  carry the identifier (\<open>ident = None\<close> stands for a node without contents), and the
  first child with the number.\<close>

fun findIdentifier :: "string option \<Rightarrow> element list \<Rightarrow> element option" where
  "findIdentifier i [] = None"
| "findIdentifier i (c # cs) =
     (if ident c \<noteq> None \<and> ident c = i then Some c else findIdentifier i cs)"

definition childrenOf :: "element \<Rightarrow> nat list \<Rightarrow> element list" where
  "childrenOf t cur =
     (case walk t cur of
        None \<Rightarrow> []
      | Some cn \<Rightarrow> (case getChildren cn of None \<Rightarrow> [] | Some cs \<Rightarrow> cs))"

text \<open>The state of a walk: the local tree, \<open>pos\<close>, \<open>lastMissingPos\<close> (\<open>None\<close> is
  \<open>-1\<close>), the position of \<open>currentNode\<close> and the number of \<open>getDirectory\<close> calls
  made so far.  \<open>fetch k t cur\<close> is the outcome of the \<open>k\<close>-th
  \<open>this.getDirectory(currentNode)\<close>: the error it rejects with, or the local tree
  once it has resolved.\<close>

record walkState =
  wtree :: element
  pos :: nat
  lastMissingPos :: "nat option"
  currentNode :: "nat list"
  calls :: nat

definition walkMeasure :: "string list \<Rightarrow> walkState \<Rightarrow> nat" where
  "walkMeasure path w =
     2 * (length path - pos w) + (if lastMissingPos w = Some (pos w) then 0 else 1)"

function getNextByPath ::
  "(nat \<Rightarrow> element \<Rightarrow> nat list \<Rightarrow> error + element) \<Rightarrow> string list \<Rightarrow> walkState \<Rightarrow> error + element"
where
  "getNextByPath fetch path w =
     (case findIdentifier (at path (pos w)) (childrenOf (wtree w) (currentNode w)) of
        Some nd \<Rightarrow>
          (if pos w + 1 \<ge> length path then Inr nd
           else getNextByPath fetch path
                  (w\<lparr>pos := pos w + 1, currentNode := currentNode w @ [getNumber nd]\<rparr>))
      | None \<Rightarrow>
          (if lastMissingPos w = Some (pos w) then Inl (pathError path)
           else (case fetch (calls w) (wtree w) (currentNode w) of
                   Inl e \<Rightarrow> Inl e
                 | Inr t \<Rightarrow>
                     getNextByPath fetch path
                       (w\<lparr>wtree := t, lastMissingPos := Some (pos w), calls := calls w + 1\<rparr>))))"
  by pat_completeness auto
termination
  by (relation "measure (\<lambda>(fetch, path, w). walkMeasure path w)")
     (auto simp add: walkMeasure_def)

definition getNodeByPath ::
  "(nat \<Rightarrow> element \<Rightarrow> nat list \<Rightarrow> error + element) \<Rightarrow> string \<Rightarrow> element \<Rightarrow> error + element" where
  "getNodeByPath fetch path t =
     getNextByPath fetch (split (CHR ''/'') path)
       \<lparr>wtree = t, pos = 0, lastMissingPos = None, currentNode = [], calls = 0\<rparr>"

text \<open>\<open>Number(path[pos])\<close> is the parameter \<open>toNumber\<close>; \<open>None\<close> is a value that
  equals no node number.\<close>

function getNextByPathnum ::
  "(string option \<Rightarrow> nat option) \<Rightarrow> (nat \<Rightarrow> element \<Rightarrow> nat list \<Rightarrow> error + element)
     \<Rightarrow> string list \<Rightarrow> walkState \<Rightarrow> error + element"
where
  "getNextByPathnum toNumber fetch path w =
     (case (case toNumber (at path (pos w)) of
              None \<Rightarrow> None
            | Some n \<Rightarrow> findNumber n (childrenOf (wtree w) (currentNode w))) of
        Some nd \<Rightarrow>
          (if pos w + 1 \<ge> length path then Inr nd
           else getNextByPathnum toNumber fetch path
                  (w\<lparr>pos := pos w + 1, currentNode := currentNode w @ [getNumber nd]\<rparr>))
      | None \<Rightarrow>
          (if lastMissingPos w = Some (pos w) then Inl (pathnumError path)
           else (case fetch (calls w) (wtree w) (currentNode w) of
                   Inl e \<Rightarrow> Inl e
                 | Inr t \<Rightarrow>
                     getNextByPathnum toNumber fetch path
                       (w\<lparr>wtree := t, lastMissingPos := Some (pos w), calls := calls w + 1\<rparr>))))"
  by pat_completeness auto
termination
  by (relation "measure (\<lambda>(toNumber, fetch, path, w). walkMeasure path w)")
     (auto simp add: walkMeasure_def)

definition getNodeByPathnum ::
  "(string option \<Rightarrow> nat option) \<Rightarrow> (nat \<Rightarrow> element \<Rightarrow> nat list \<Rightarrow> error + element)
     \<Rightarrow> string \<Rightarrow> element \<Rightarrow> error + element" where
  "getNodeByPathnum toNumber fetch path t =
     getNextByPathnum toNumber fetch (split (CHR ''.'') path)
       \<lparr>wtree = t, pos = 0, lastMissingPos = None, currentNode = [], calls = 0\<rparr>"

declare getNextByPath.simps [simp del] getNextByPathnum.simps [simp del]

section \<open>BER codec of StreamDescription\<close>

text \<open>
  The encoder and the decoder of \<open>StreamDescription\<close> and the BER reader and writer
  are not among the sources at hand (only their test is); they are modelled from the
  specification, section 4.A.  A byte is a natural number below 256.
\<close>

datatype berError = UnexpectedTag | TruncatedInput | InvalidLength | ExcessData

text \<open>Modelled from the spec: a stream description is a format, the enumerated value
  of a \<open>StreamFormat\<close>, and the byte offset into the stream packet.  \<open>Int32BE\<close> is
  the enumerated value 4.\<close>

record StreamDescription =
  format :: int
  offset :: int

definition Int32BE :: int where
  "Int32BE = 4"

text \<open>Modelled from the spec: integers are written in two's complement on as few
  bytes as hold them.\<close>

function intBytes :: "int \<Rightarrow> nat list" where
  "intBytes n =
     (if - 128 \<le> n \<and> n < 128 then [nat (n mod 256)]
      else intBytes (n div 256) @ [nat (n mod 256)])"
  by pat_completeness auto
termination
  by (relation "measure (\<lambda>n. nat \<bar>n\<bar>)") auto

declare intBytes.simps [simp del]

definition twosComplement :: "nat list \<Rightarrow> int" where
  "twosComplement bs =
     (case bs of
        [] \<Rightarrow> 0
      | b # rest \<Rightarrow> foldl (\<lambda>acc x. acc * 256 + int x) (if 128 \<le> b then int b - 256 else int b) rest)"

text \<open>Modelled from the spec: the length is written in the short form below 128 and
  in the long definite form otherwise, the first byte giving the number of length
  bytes with its top bit set.\<close>

function natBytes :: "nat \<Rightarrow> nat list" where
  "natBytes n = (if n < 256 then [n] else natBytes (n div 256) @ [n mod 256])"
  by pat_completeness auto
termination
  by (relation "measure (\<lambda>n. n)") auto

declare natBytes.simps [simp del]

definition encodeLength :: "nat \<Rightarrow> nat list" where
  "encodeLength n = (if n < 128 then [n] else (128 + length (natBytes n)) # natBytes n)"

text \<open>Modelled from the spec: the writer buffers the content of a sequence and
  prefixes its definite length.\<close>

definition tlv :: "nat \<Rightarrow> nat list \<Rightarrow> nat list" where
  "tlv tag content = tag # encodeLength (length content) @ content"

definition INTEGER :: nat where "INTEGER = 2"
definition ENUMERATED :: nat where "ENUMERATED = 10"

text \<open>Context and application tags of constructed values: class bits, the constructed
  bit and the tag number.\<close>

definition contextTag :: "nat \<Rightarrow> nat" where "contextTag n = 160 + n"
definition applicationTag :: "nat \<Rightarrow> nat" where "applicationTag n = 96 + n"

text \<open>Modelled from the spec: an application-tagged set holding the format as
  context-0 enumerated and the offset as context-1 integer.  The number of the
  application tag of \<open>StreamDescription\<close> is the parameter \<open>tagno\<close>.\<close>

definition encodeStreamDescription :: "nat \<Rightarrow> StreamDescription \<Rightarrow> nat list" where
  "encodeStreamDescription tagno sd =
     tlv (applicationTag tagno)
       (tlv (contextTag 0) (tlv ENUMERATED (intBytes (format sd)))
        @ tlv (contextTag 1) (tlv INTEGER (intBytes (offset sd))))"

text \<open>Modelled from the spec: the reader is a cursor over the input; every read
  returns the value and the remaining input, or fails.\<close>

datatype berLength = Definite nat | Indefinite

definition readLength :: "nat list \<Rightarrow> berError + (berLength \<times> nat list)" where
  "readLength input =
     (case input of
        [] \<Rightarrow> Inl TruncatedInput
      | b # rest \<Rightarrow>
          (if b < 128 then Inr (Definite b, rest)
           else if b = 128 then Inr (Indefinite, rest)
           else if b = 255 then Inl InvalidLength
           else if length rest < b - 128 then Inl TruncatedInput
           else Inr (Definite (foldl (\<lambda>acc x. acc * 256 + x) 0 (take (b - 128) rest)),
                     drop (b - 128) rest)))"

definition expectTag :: "nat \<Rightarrow> nat list \<Rightarrow> berError + nat list" where
  "expectTag tag input =
     (case input of
        [] \<Rightarrow> Inl TruncatedInput
      | b # rest \<Rightarrow> if b = tag then Inr rest else Inl UnexpectedTag)"

text \<open>\<open>enterSequence(expectedTag)\<close>, the reads of the body, \<open>exitSequence()\<close>: a
  definite length bounds the body, which has to use it up; an indefinite one is closed
  by the end-of-contents octets.\<close>

definition sequence ::
  "nat \<Rightarrow> (nat list \<Rightarrow> berError + ('a \<times> nat list)) \<Rightarrow> nat list \<Rightarrow> berError + ('a \<times> nat list)" where
  "sequence tag body input =
     (case expectTag tag input of
        Inl e \<Rightarrow> Inl e
      | Inr afterTag \<Rightarrow>
          (case readLength afterTag of
             Inl e \<Rightarrow> Inl e
           | Inr (Definite n, rest) \<Rightarrow>
               (if length rest < n then Inl TruncatedInput
                else (case body (take n rest) of
                        Inl e \<Rightarrow> Inl e
                      | Inr (v, left) \<Rightarrow> if left = [] then Inr (v, drop n rest) else Inl ExcessData))
           | Inr (Indefinite, rest) \<Rightarrow>
               (case body rest of
                  Inl e \<Rightarrow> Inl e
                | Inr (v, left) \<Rightarrow>
                    (case left of
                       0 # 0 # after \<Rightarrow> Inr (v, after)
                     | _ \<Rightarrow> Inl InvalidLength))))"

definition readInteger :: "nat \<Rightarrow> nat list \<Rightarrow> berError + (int \<times> nat list)" where
  "readInteger tag input =
     (case expectTag tag input of
        Inl e \<Rightarrow> Inl e
      | Inr afterTag \<Rightarrow>
          (case readLength afterTag of
             Inl e \<Rightarrow> Inl e
           | Inr (Indefinite, rest) \<Rightarrow> Inl InvalidLength
           | Inr (Definite n, rest) \<Rightarrow>
               (if n = 0 then Inl InvalidLength
                else if length rest < n then Inl TruncatedInput
                else Inr (twosComplement (take n rest), drop n rest))))"

definition readFields :: "nat list \<Rightarrow> berError + (StreamDescription \<times> nat list)" where
  "readFields input =
     (case sequence (contextTag 0) (readInteger ENUMERATED) input of
        Inl e \<Rightarrow> Inl e
      | Inr (f, rest) \<Rightarrow>
          (case sequence (contextTag 1) (readInteger INTEGER) rest of
             Inl e \<Rightarrow> Inl e
           | Inr (off, left) \<Rightarrow> Inr (\<lparr>format = f, offset = off\<rparr>, left)))"

definition decodeStreamDescription :: "nat \<Rightarrow> nat list \<Rightarrow> berError + StreamDescription" where
  "decodeStreamDescription tagno input =
     (case sequence (applicationTag tagno) readFields input of
        Inl e \<Rightarrow> Inl e
      | Inr (sd, left) \<Rightarrow> Inr sd)"

text \<open>The integers of 64 bits, which include every integer a JavaScript number holds
  exactly.\<close>

definition int64 :: "int \<Rightarrow> bool" where
  "int64 n = (- (2 ^ 63) \<le> n \<and> n < 2 ^ 63)"

section \<open>Example values\<close>

text \<open>An instance of \<open>update\<close>: it overwrites the scalar fields that the fragment
  carries and keeps the others (spec 4.C); children are left to the merge functions.\<close>

definition updateScalars :: "element \<Rightarrow> element \<Rightarrow> element" where
  "updateScalars e f =
     Element (number e) (qpath e) (kind e)
       (case ident f of None \<Rightarrow> ident e | Some x \<Rightarrow> Some x)
       (case val f of None \<Rightarrow> val e | Some x \<Rightarrow> Some x)
       (children e)"

definition sampleParameter :: TreeNode where
  "sampleParameter = \<lparr>npath = [1, 2], nkind = KParameter, nstream = False, targetCount = 0, sourceCount = 0\<rparr>"

definition sampleFunction :: TreeNode where
  "sampleFunction = \<lparr>npath = [1, 3], nkind = KFunction, nstream = False, targetCount = 0, sourceCount = 0\<rparr>"

definition sampleMatrix :: TreeNode where
  "sampleMatrix = \<lparr>npath = [1, 4], nkind = KMatrix, nstream = False, targetCount = 4, sourceCount = 2\<rparr>"


text \<open>A session with a \<open>getDirectory\<close> in flight and a \<open>setValue\<close> queued behind it.\<close>

definition busySession :: client where
  "busySession =
     step updateScalars (SSetValue sampleParameter 7)
       (step updateScalars (SGetDirectory None) newClient)"

text \<open>A local tree holding parameter \<open>1\<close> with value 3, and the same parameter sent
  with value 5, once as a qualified and once as a positional fragment.\<close>

definition gainTree :: element where
  "gainTree =
     Element 0 None KRoot None None
       (Some [Element 1 None KParameter (Some ''gain'') (Some 3) None])"

definition qualifiedGain :: element where
  "qualifiedGain = Element 1 (Some [1]) KParameter None (Some 5) None"

definition positionalGain :: element where
  "positionalGain = Element 1 None KParameter None (Some 5) None"

definition freshMerge :: "element \<Rightarrow> mstate" where
  "freshMerge t = \<lparr>tree = t, evs = [], exn = None\<rparr>"






text \<open>\<open>Number\<close> on the strings of decimal digits (\<open>Number('')\<close> is 0), with
  \<open>undefined\<close> and every other string taken as values that equal no node number.\<close>

fun decimalFrom :: "nat \<Rightarrow> string \<Rightarrow> nat option" where
  "decimalFrom acc [] = Some acc"
| "decimalFrom acc (c # cs) =
     (if 48 \<le> (of_char c :: nat) \<and> (of_char c :: nat) < 58
      then decimalFrom (10 * acc + (of_char c - 48)) cs else None)"

definition decimal :: "string option \<Rightarrow> nat option" where
  "decimal s = (case s of None \<Rightarrow> None | Some digits \<Rightarrow> decimalFrom 0 digits)"

text \<open>A local tree that knows node \<open>1\<close> (identifier \<open>a\<close>) and a peer whose answers
  to \<open>getDirectory\<close> add nothing to it.\<close>

definition knownTree :: element where
  "knownTree =
     Element 0 None KRoot None None (Some [Element 1 None KNode (Some ''a'') None None])"

definition silentPeer :: "nat \<Rightarrow> element \<Rightarrow> nat list \<Rightarrow> error + element" where
  "silentPeer k t cur = Inr t"

section \<open>Properties of the request pipeline\<close>

lemma inv_log [simp]: "pipelineInv (log ev s) = pipelineInv s"
  by (simp add: pipelineInv_def log_def split: option.split)

lemma inv_all:
  "startable s \<Longrightarrow> pipelineInv (makeRequest s)"
  "pipelineInv (finishRequest s)"
  "(case e of None \<Rightarrow> synchronous (op r) \<or> (activeRequest s = Some r \<and> timeoutError r \<noteq> None)
            | Some err \<Rightarrow> \<not> synchronous (op r)) \<Longrightarrow> pipelineInv (func r e s)"
proof (induction s and s and r e s rule: makeRequest_finishRequest_func.induct)
  case (1 s)
  show ?case
  proof (cases "pendingRequests s")
    case Nil
    with 1(2) show ?thesis
      by (simp add: makeRequest.simps pipelineInv_def startable_def split: option.splits)
  next
    case (Cons q rest)
    show ?thesis
    proof (cases "activeRequest s = None")
      case True
      have "pipelineInv (func (q\<lparr>timeoutError := Some (EmberTimeoutError (requestID s))\<rparr>) None
                   (log (MakingRequest (requestID s) (npath (node q)))
                      (s\<lparr>activeRequest := Some (q\<lparr>timeoutError := Some (EmberTimeoutError (requestID s))\<rparr>),
                         pendingRequests := rest,
                         requestID := Suc (requestID s), timeout := True\<rparr>)))"
        by (rule 1(1)[OF Cons True refl]) (simp add: log_def)
      with Cons True show ?thesis
        by (simp add: makeRequest.simps Let_def)
    next
      case False
      with 1(2) Cons show ?thesis
        by (auto simp add: makeRequest.simps pipelineInv_def startable_def split: option.splits)
    qed
  qed
next
  case (2 s)
  have "pipelineInv (makeRequest ((clearTimeout s)\<lparr>activeRequest := None\<rparr>))"
    by (rule 2) (simp add: startable_def clearTimeout_def)
  then show ?case
    by (simp add: finishRequest.simps)
next
  case (3 r e s)
  show ?case
  proof (cases e)
    case None
    show ?thesis
    proof (cases "synchronous (op r)")
      case True
      with None 3 show ?thesis
        by (auto simp add: func.simps synchronous_def split: reqkind.splits)
    next
      case False
      with None 3 show ?thesis
        by (auto simp add: func.simps synchronous_def pipelineInv_def send_def installCallback_def log_def
             split: reqkind.splits)
    qed
  next
    case (Some err)
    with 3 show ?thesis
      by (auto simp add: func.simps synchronous_def split: reqkind.splits)
  qed
qed


lemma inv_fields [simp]:
  "pipelineInv (s\<lparr>callback := c\<rparr>) = pipelineInv s"
  "pipelineInv (s\<lparr>root := t\<rparr>) = pipelineInv s"
  "pipelineInv (s\<lparr>promises := n\<rparr>) = pipelineInv s"
  "pipelineInv (s\<lparr>events := evl\<rparr>) = pipelineInv s"
  by (simp_all add: pipelineInv_def split: option.split)

lemma inv_callCallback: "pipelineInv s \<Longrightarrow> pipelineInv (callCallback cb e nd s)"
  by (simp add: callCallback_def inv_all(2) split: callback.split option.split received.split inbound.split)

lemma inv_invokeCallback: "pipelineInv s \<Longrightarrow> pipelineInv (invokeCallback e nd s)"
  by (simp add: invokeCallback_def inv_callCallback split: option.split)

lemma inv_addRequest: "pipelineInv s \<Longrightarrow> pipelineInv (addRequest r s)"
  unfolding addRequest_def
  by (rule inv_all(1)) (simp add: startable_def pipelineInv_def split: option.splits)

lemma inv_timeoutRequest:
  assumes "pipelineInv s"
  shows "pipelineInv (timeoutRequest s)"
proof (cases "activeRequest s")
  case None
  with assms show ?thesis by (simp add: timeoutRequest_def)
next
  case (Some r)
  with assms obtain err where r: "\<not> synchronous (op r)" "timeoutError r = Some err"
    by (auto simp add: pipelineInv_def)
  have "pipelineInv (func r (Some err) s)"
    by (rule inv_all(3)) (simp add: r)
  with Some r show ?thesis by (simp add: timeoutRequest_def)
qed

lemma inv_step: "pipelineInv s \<Longrightarrow> pipelineInv (step upd st s)"
  by (cases st)
     (simp_all add: step_def connect_op_def connected_def socketError_def emberTree_def
        getDirectory_def invokeFunction_def matrixOPeration_def setValue_def subscribe_def
        unsubscribe_def newPromise_def inv_invokeCallback inv_addRequest inv_timeoutRequest Let_def
        split: inbound.split prod.split option.split)

lemma inv_reachable: "reachable upd s \<Longrightarrow> pipelineInv s"
  by (induction rule: reachable.induct) (simp_all add: inv_step, simp add: pipelineInv_def newClient_def)


lemma balanced_refl [simp]: "balanced s s 0"
  by (simp add: balanced_def sentOf_def)

lemma balanced_trans: "balanced s s' j \<Longrightarrow> balanced s' s'' k \<Longrightarrow> balanced s s'' (j + k)"
  by (auto simp add: balanced_def sentOf_def)

lemma balanced_cong:
  "events t = events s \<Longrightarrow> requestID t = requestID s \<Longrightarrow> balanced t s' k \<Longrightarrow> balanced s s' k"
  by (simp add: balanced_def)

lemma balanced_log_quiet:
  "balanced s s' k \<Longrightarrow> (\<And>m. ev \<noteq> Sent m) \<Longrightarrow> balanced s (log ev s') k"
  by (cases ev) (auto simp add: balanced_def sentOf_def log_def)

lemma balanced_from_log:
  "balanced (log ev s) s' k \<Longrightarrow> (\<And>m. ev \<noteq> Sent m) \<Longrightarrow> balanced s s' k"
  by (cases ev) (auto simp add: balanced_def sentOf_def log_def)

lemma balanced_from_send: "balanced (send r s) s' 0 \<Longrightarrow> balanced s s' (Suc 0)"
  by (cases "op r") (auto simp add: balanced_def send_def log_def sentOf_def)

lemma balanced_send_install: "balanced s (send r (installCallback r s)) (Suc 0)"
  by (cases "op r") (simp_all add: balanced_def send_def installCallback_def log_def sentOf_def)

lemma balanced_all:
  "balanced s (makeRequest s) 0"
  "balanced s (finishRequest s) 0"
  "balanced s (func r e s) (if e = None then 1 else 0)"
proof (induction s and s and r e s rule: makeRequest_finishRequest_func.induct)
  case (1 s)
  show ?case
  proof (cases "pendingRequests s")
    case Nil
    then show ?thesis by (simp add: makeRequest.simps)
  next
    case (Cons q rest)
    show ?thesis
    proof (cases "activeRequest s = None")
      case True
      from 1[OF Cons True refl] Cons True show ?thesis
        by (auto simp add: makeRequest.simps Let_def log_def balanced_def sentOf_def)
    next
      case False
      with Cons show ?thesis by (auto simp add: makeRequest.simps)
    qed
  qed
next
  case (2 s)
  then show ?case
    by (simp add: finishRequest.simps clearTimeout_def balanced_def)
next
  case (3 r e s)
  show ?case
  proof (cases e)
    case None
    with 3 show ?thesis
      by (cases "op r")
         (auto simp add: func.simps balanced_send_install
               intro!: balanced_log_quiet balanced_from_send)
  next
    case (Some err)
    with 3 show ?thesis
      by (cases "op r")
         (auto simp add: func.simps intro!: balanced_log_quiet intro: balanced_from_log)
  qed
qed


lemma balanced_finish_clear: "balanced s (finishRequest (clearTimeout s)) 0"
  by (rule balanced_cong[OF _ _ balanced_all(2)]) (simp_all add: clearTimeout_def)

lemma balanced_callCallback: "balanced s (callCallback cb e nd s) 0"
proof (cases cb)
  case (CbConnect w)
  then show ?thesis
    by (auto simp add: callCallback_def log_def balanced_def sentOf_def)
next
  case (CbGetDirectory qnode w)
  then show ?thesis
    by (auto simp add: callCallback_def balanced_finish_clear intro!: balanced_log_quiet
          split: option.split received.split inbound.split)
next
  case (CbInvoke w)
  have "balanced s (finishRequest (log ev (clearTimeout s))) 0" if "\<And>m. ev \<noteq> Sent m" for ev
    by (rule balanced_from_log[OF _ that], rule balanced_cong[OF _ _ balanced_all(2)])
       (simp_all add: clearTimeout_def log_def)
  with CbInvoke show ?thesis
    by (simp add: callCallback_def)
next
  case (CbMatrix m w)
  then show ?thesis
    by (auto simp add: callCallback_def balanced_finish_clear intro!: balanced_log_quiet
          split: option.split received.split inbound.split)
next
  case (CbSetValue w)
  then show ?thesis
    by (auto simp add: callCallback_def balanced_finish_clear intro!: balanced_log_quiet)
qed

lemma balanced_invokeCallback: "balanced s (invokeCallback e nd s) 0"
  by (simp add: invokeCallback_def balanced_callCallback split: option.split)

lemma balanced_addRequest:
  "events t = events s \<Longrightarrow> requestID t = requestID s \<Longrightarrow> balanced s (addRequest r t) 0"
  unfolding addRequest_def
  by (rule balanced_cong[OF _ _ balanced_all(1)]) simp_all

lemma balanced_emberTree: "balanced s (emberTree upd msg s) 0"
proof (cases msg)
  case (InvocationResult i res)
  have "balanced (log (EmitInvocationResult msg) s)
          (invokeCallback Undefined (Some (Received msg [])) (log (EmitInvocationResult msg) s)) 0"
    by (rule balanced_invokeCallback)
  then have "balanced s (invokeCallback Undefined (Some (Received msg [])) (log (EmitInvocationResult msg) s)) 0"
    by (rule balanced_from_log) simp
  with InvocationResult show ?thesis by (simp add: emberTree_def)
next
  case (RootMsg r)
  obtain st parents where m: "mergeRoot upd (root s) r = (st, parents)"
    by (cases "mergeRoot upd (root s) r")
  define s1 where "s1 = log (Merged (evs st)) (s\<lparr>root := tree st\<rparr>)"
  have b1: "balanced s s1 0"
    unfolding s1_def by (rule balanced_log_quiet) (simp_all add: balanced_def sentOf_def)
  have b2: "balanced s (invokeCallback e nd s1) 0" for e nd
    using balanced_trans[OF b1 balanced_invokeCallback] by simp
  have b3: "balanced s (invokeCallback e' nd' (invokeCallback e nd s1)) 0" for e nd e' nd'
    using balanced_trans[OF b2 balanced_invokeCallback] by simp
  from RootMsg m b2 b3 show ?thesis
    by (simp add: emberTree_def s1_def Let_def split: option.split)
qed

lemma balanced_timeoutRequest: "pipelineInv s \<Longrightarrow> balanced s (timeoutRequest s) 0"
  using balanced_all(3)[of s _ "Some _"]
  by (auto simp add: timeoutRequest_def pipelineInv_def split: option.split)

lemma balanced_quiet:
  "events t = events s \<Longrightarrow> requestID t = requestID s \<Longrightarrow> (\<And>m. ev \<noteq> Sent m) \<Longrightarrow> balanced s (log ev t) 0"
  by (cases ev) (auto simp add: balanced_def sentOf_def log_def)

lemma balanced_same:
  "events t = events s \<Longrightarrow> requestID t = requestID s \<Longrightarrow> balanced s t 0"
  by (simp add: balanced_def sentOf_def)

lemma balanced_step: "pipelineInv s \<Longrightarrow> balanced s (step upd st s) 0"
  by (cases st)
     (simp_all add: step_def connect_op_def connected_def socketError_def
        getDirectory_def invokeFunction_def unsubscribe_def newPromise_def
        matrixOPeration_def setValue_def subscribe_def
        balanced_invokeCallback balanced_emberTree balanced_timeoutRequest balanced_addRequest
        balanced_quiet balanced_same
        split: option.split)



lemma sentOf_append [simp]: "sentOf (xs @ ys) = sentOf xs @ sentOf ys"
  by (simp add: sentOf_def)




section \<open>Properties of the path test\<close>


lemma lastIndexOf_ge: "- 1 \<le> lastIndexOf c s"
  by (induction s) (auto simp add: Let_def)




section \<open>Properties of the merge\<close>

lemma getNumber_setChildren [simp]: "getNumber (setChildren e cs) = getNumber e"
  by (simp add: getNumber_def setChildren_def split: option.split)

lemma children_setChildren [simp]: "children (setChildren e cs) = cs"
  by (simp add: setChildren_def)



lemma extends_refl [simp]: "extends t t"
  by (simp add: extends_def)













lemma tree_emit [simp]: "tree (emit ev st) = tree st"
  by (simp add: emit_def)

lemma exn_emit [simp]: "exn (emit ev st) = exn st"
  by (simp add: emit_def)

















section \<open>Properties of the BER codec\<close>

lemma intBytes_nonempty: "intBytes n \<noteq> []"
  by (simp add: intBytes.simps[of n])

lemma foldl_snoc_value:
  "foldl (\<lambda>acc x. acc * 256 + int x) a (xs @ [y]) = foldl (\<lambda>acc x. acc * 256 + int x) a xs * 256 + int y"
  by simp

lemma twosComplement_snoc:
  "bs \<noteq> [] \<Longrightarrow> twosComplement (bs @ [y]) = twosComplement bs * 256 + int y"
  by (cases bs) (simp_all add: twosComplement_def)

lemma twosComplement_intBytes: "twosComplement (intBytes n) = n"
proof (induction n rule: intBytes.induct)
  case (1 n)
  show ?case
  proof (cases "- 128 \<le> n \<and> n < 128")
    case True
    then have "intBytes n = [nat (n mod 256)]" by (simp add: intBytes.simps[of n])
    moreover have "n mod 256 = (if n < 0 then n + 256 else n)"
      using True by presburger
    ultimately show ?thesis using True
      by (auto simp add: twosComplement_def)
  next
    case False
    then have "intBytes n = intBytes (n div 256) @ [nat (n mod 256)]"
      by (simp only: intBytes.simps[of n] if_False)
    with 1[OF False] show ?thesis
      by (simp add: twosComplement_snoc intBytes_nonempty)
  qed
qed

lemma length_intBytes:
  "- (2 ^ (8 * k + 7)) \<le> n \<Longrightarrow> n < 2 ^ (8 * k + 7) \<Longrightarrow> length (intBytes n) \<le> k + 1"
proof (induction k arbitrary: n)
  case 0
  then show ?case by (simp add: intBytes.simps[of n])
next
  case (Suc k)
  show ?case
  proof (cases "- 128 \<le> n \<and> n < 128")
    case True
    then show ?thesis by (simp add: intBytes.simps[of n])
  next
    case False
    have p: "(2::int) ^ (8 * Suc k + 7) = 256 * 2 ^ (8 * k + 7)"
      by (simp add: power_add)
    from Suc.prems have "- (2 ^ (8 * k + 7)) \<le> n div 256" "n div 256 < 2 ^ (8 * k + 7)"
      unfolding p by linarith+
    from Suc.IH[OF this] False show ?thesis
      by (simp only: intBytes.simps[of n] if_False) simp
  qed
qed


lemma readLength_short: "n < 128 \<Longrightarrow> readLength (encodeLength n @ rest) = Inr (Definite n, rest)"
  by (simp add: readLength_def encodeLength_def)

lemma length_tlv: "length content < 128 \<Longrightarrow> length (tlv tag content) = length content + 2"
  by (simp add: tlv_def encodeLength_def)

lemma sequence_tlv:
  "length content < 128 \<Longrightarrow> body content = Inr (v, []) \<Longrightarrow>
   sequence tag body (tlv tag content @ rest) = Inr (v, rest)"
  by (simp add: sequence_def tlv_def expectTag_def readLength_short)

lemma readInteger_tlv:
  "length (intBytes n) < 128 \<Longrightarrow> readInteger tag (tlv tag (intBytes n) @ rest) = Inr (n, rest)"
  by (simp add: readInteger_def tlv_def expectTag_def readLength_short intBytes_nonempty
        twosComplement_intBytes)

lemma length_intBytes64: "int64 n \<Longrightarrow> length (intBytes n) \<le> 8"
  using length_intBytes[of 7 n] by (simp add: int64_def)

lemma bytes_intBytes: "list_all (\<lambda>b. b < 256) (intBytes n)"
proof (induction n rule: intBytes.induct)
  case (1 n)
  have m: "nat (n mod 256) < 256" by simp
  show ?case
  proof (cases "- 128 \<le> n \<and> n < 128")
    case True
    with m show ?thesis by (simp add: intBytes.simps[of n])
  next
    case False
    with 1[OF False] m show ?thesis
      by (simp only: intBytes.simps[of n] if_False list_all_append) simp
  qed
qed

lemma bytes_tlv:
  "tag < 256 \<Longrightarrow> length content < 128 \<Longrightarrow> list_all (\<lambda>b. b < 256) content
   \<Longrightarrow> list_all (\<lambda>b. b < 256) (tlv tag content)"
  by (simp add: tlv_def encodeLength_def)

lemma roundtrip_int64:
  assumes f: "int64 (format sd)" and off: "int64 (offset sd)"
  shows "decodeStreamDescription tagno (encodeStreamDescription tagno sd) = Inr sd"
proof -
  let ?f = "tlv ENUMERATED (intBytes (format sd))"
  let ?o = "tlv INTEGER (intBytes (offset sd))"
  have lf: "length (intBytes (format sd)) < 128" using length_intBytes64[OF f] by simp
  have lo: "length (intBytes (offset sd)) < 128" using length_intBytes64[OF off] by simp
  have lf2: "length ?f < 128" using length_intBytes64[OF f] by (simp add: length_tlv)
  have lo2: "length ?o < 128" using length_intBytes64[OF off] by (simp add: length_tlv)
  have rf: "readInteger ENUMERATED ?f = Inr (format sd, [])"
    using readInteger_tlv[OF lf, of ENUMERATED "[]"] by simp
  have ro: "readInteger INTEGER ?o = Inr (offset sd, [])"
    using readInteger_tlv[OF lo, of INTEGER "[]"] by simp
  have s0: "sequence (contextTag 0) (readInteger ENUMERATED) (tlv (contextTag 0) ?f @ rest)
              = Inr (format sd, rest)" for rest
    using sequence_tlv[of ?f "readInteger ENUMERATED" "format sd" "contextTag 0" rest] lf2 rf by simp
  have s1: "sequence (contextTag 1) (readInteger INTEGER) (tlv (contextTag 1) ?o) = Inr (offset sd, [])"
    using sequence_tlv[of ?o "readInteger INTEGER" "offset sd" "contextTag 1" "[]"] lo2 ro by simp
  let ?content = "tlv (contextTag 0) ?f @ tlv (contextTag 1) ?o"
  have fields: "readFields ?content = Inr (sd, [])"
    using s0 s1 by (simp add: readFields_def)
  have "length ?content < 128"
    using length_intBytes64[OF f] length_intBytes64[OF off] by (simp add: length_tlv)
  with sequence_tlv[of ?content readFields sd "applicationTag tagno" "[]"] fields show ?thesis
    by (simp add: decodeStreamDescription_def encodeStreamDescription_def)
qed

text \<open>
  Claim C1.  In every session the client can be in, at most one request is in flight:
  while a request is active \<open>_makeRequest\<close> changes nothing and \<open>addRequest\<close> only
  appends the record to the queue; a record waits in the queue only while another
  request is active; and whatever happens next (a call, a transport event, a timer),
  the trace only grows and the messages written to the transport during it are exactly
  as many as the requests started during it, each start taking place in
  \<open>_makeRequest\<close> with the active slot empty.
\<close>

theorem single_request_in_flight:
  assumes "reachable upd s"
  shows "(activeRequest s \<noteq> None \<longrightarrow>
            makeRequest s = s \<and>
            addRequest r s = s\<lparr>pendingRequests := pendingRequests s @ [r]\<rparr>)
       \<and> (activeRequest s = None \<longrightarrow> pendingRequests s = [])
       \<and> (\<exists>evl. events (step upd st s) = events s @ evl
              \<and> length (sentOf evl) + requestID s = requestID (step upd st s))"
proof -
  have inv: "pipelineInv s" using assms by (rule inv_reachable)
  have "makeRequest t = t" if "activeRequest t \<noteq> None" for t
    using that by (cases "pendingRequests t") (auto simp add: makeRequest.simps)
  then have a: "activeRequest s \<noteq> None \<longrightarrow>
            makeRequest s = s \<and>
            addRequest r s = s\<lparr>pendingRequests := pendingRequests s @ [r]\<rparr>"
    by (simp add: addRequest_def)
  have b: "activeRequest s = None \<longrightarrow> pendingRequests s = []"
    using inv by (auto simp add: pipelineInv_def)
  have c: "\<exists>evl. events (step upd st s) = events s @ evl
              \<and> length (sentOf evl) + requestID s = requestID (step upd st s)"
    using balanced_step[OF inv, of upd st] by (simp add: balanced_def)
  from a b c show ?thesis by blast
qed

theorem single_request_in_flight_witness:
  "reachable updateScalars busySession
   \<and> activeRequest busySession \<noteq> None
   \<and> makeRequest busySession = busySession
   \<and> addRequest (newRequest sampleFunction (Invoke [1]) busySession) busySession
       = busySession\<lparr>pendingRequests := pendingRequests busySession
                         @ [newRequest sampleFunction (Invoke [1]) busySession]\<rparr>
   \<and> (\<exists>evl. events (step updateScalars STimeout busySession) = events busySession @ evl
          \<and> length (sentOf evl) + requestID busySession
              = requestID (step updateScalars STimeout busySession))"
proof -
  have r: "reachable updateScalars busySession"
    unfolding busySession_def
    by (intro reachable.intros) (simp_all add: enabled_def)
  have t: "activeRequest busySession \<noteq> None"
    by (simp add: busySession_def step_def setValue_def getDirectory_def addRequest_def
          newRequest_def newPromise_def newClient_def makeRequest.simps func.simps
          send_def installCallback_def log_def sampleParameter_def rootNode_def)
  from single_request_in_flight[OF r, of "newRequest sampleFunction (Invoke [1]) busySession" STimeout]
    r t show ?thesis by blast
qed

text \<open>
  Claim C2.  Decoding the bytes produced by encoding a stream description yields the
  same format and offset, for every description whose two integers fit 64 bits (which
  covers every integer a JavaScript number holds exactly); for
  \<open>{format: Int32BE, offset: 42}\<close> the bytes are the application tag, then
  context-0 holding the enumerated 4 and context-1 holding the integer 42, and the
  decoder returns that description.
\<close>

theorem streamDescription_roundtrip:
  shows "(int64 (format sd) \<and> int64 (offset sd) \<longrightarrow>
            decodeStreamDescription tagno (encodeStreamDescription tagno sd) = Inr sd)
       \<and> encodeStreamDescription tagno \<lparr>format = Int32BE, offset = 42\<rparr>
           = [applicationTag tagno, 10,
              contextTag 0, 3, ENUMERATED, 1, 4,
              contextTag 1, 3, INTEGER, 1, 42]
       \<and> decodeStreamDescription tagno (encodeStreamDescription tagno \<lparr>format = Int32BE, offset = 42\<rparr>)
           = Inr \<lparr>format = Int32BE, offset = 42\<rparr>"
proof -
  have a: "int64 Int32BE" "int64 42"
    by (simp_all add: int64_def Int32BE_def)
  have b: "intBytes Int32BE = [4]" "intBytes 42 = [42]"
    by (simp_all add: Int32BE_def intBytes.simps)
  have "encodeStreamDescription tagno \<lparr>format = Int32BE, offset = 42\<rparr>
           = [applicationTag tagno, 10,
              contextTag 0, 3, ENUMERATED, 1, 4,
              contextTag 1, 3, INTEGER, 1, 42]"
    by (simp add: encodeStreamDescription_def tlv_def encodeLength_def b)
  moreover have "decodeStreamDescription tagno (encodeStreamDescription tagno \<lparr>format = Int32BE, offset = 42\<rparr>)
           = Inr \<lparr>format = Int32BE, offset = 42\<rparr>"
    by (rule roundtrip_int64) (simp_all add: a)
  ultimately show ?thesis
    using roundtrip_int64[of sd tagno] by blast
qed

theorem streamDescription_roundtrip_witness:
  "int64 (format \<lparr>format = 12, offset = - 300\<rparr>) \<and> int64 (offset \<lparr>format = 12, offset = - 300\<rparr>)
   \<and> decodeStreamDescription 12 (encodeStreamDescription 12 \<lparr>format = 12, offset = - 300\<rparr>)
       = Inr \<lparr>format = 12, offset = - 300\<rparr>
   \<and> encodeStreamDescription 12 \<lparr>format = Int32BE, offset = 42\<rparr>
       = [108, 10, 160, 3, 10, 1, 4, 161, 3, 2, 1, 42]"
proof -
  have a: "int64 (format \<lparr>format = 12, offset = - 300\<rparr>) \<and> int64 (offset \<lparr>format = 12, offset = - 300\<rparr>)"
    by (simp add: int64_def)
  from streamDescription_roundtrip[of "\<lparr>format = 12, offset = - 300\<rparr>" 12] a
  show ?thesis
    by (simp add: applicationTag_def contextTag_def ENUMERATED_def INTEGER_def)
qed









text \<open>
  Claim C6 does not hold for \<open>_handleQualifiedNode\<close>.  The local tree holds
  parameter \<open>1\<close>; a fragment for it arrives.  Sent as a positional node,
  \<open>_handleNode\<close> updates the stored element and then emits \<open>value-change\<close>; sent
  as a qualified node, \<open>_handleQualifiedNode\<close> emits \<open>value-change\<close> first and
  updates the stored element afterwards.
\<close>

theorem value_change_before_update:
  "evs (handleQualifiedNode upd [] qualifiedGain (freshMerge gainTree))
     = [ValueChange [1] qualifiedGain, Update [1] qualifiedGain]
   \<and> evs (handleNode upd [] positionalGain (freshMerge gainTree))
     = [Update [1] positionalGain, ValueChange [1] positionalGain]"
  by (simp add: qualifiedGain_def positionalGain_def freshMerge_def gainTree_def emit_def
        getElementByPath_def getElementByNumber_def getNumber_def Let_def)




text \<open>
  Claim C8 does not hold for the error that a failed discovery throws.  Both error
  objects are built before \<open>pos\<close> is initialised, so their message does not depend on
  where the walk stops: \<open>getNodeByPath\<close> always reports the empty path and
  \<open>getNodeByPathnum\<close> always reports the whole requested path.  With node \<open>a\<close>
  (number 1) known and a peer that advertises nothing below it, the discovery of
  \<open>a/b\<close> stops at the unknown segment \<open>b\<close> and reports no path at all, and the
  discovery of \<open>1.2.3\<close> stops at the unknown segment \<open>2\<close> and reports \<open>1/2/3\<close>.
\<close>

theorem discovery_error_ignores_position:
  "pathError path = Error ''Failed path discovery at ''
   \<and> pathnumError path = Error (''Failed path discovery at '' @ join ''/'' path)
   \<and> getNodeByPath silentPeer ''a/b'' knownTree = Inl (Error ''Failed path discovery at '')
   \<and> getNodeByPathnum decimal silentPeer ''1.2.3'' knownTree
       = Inl (Error ''Failed path discovery at 1/2/3'')"
  by (simp add: pathError_def pathnumError_def slice0_def plusOne_def
        getNodeByPath_def getNodeByPathnum_def getNextByPath.simps getNextByPathnum.simps
        at_def childrenOf_def getChildren_def knownTree_def silentPeer_def decimal_def
        getElementByNumber_def getNumber_def)



text \<open>
  Claim C10.  For a node that is not ((a parameter or a matrix) and a stream),
  \<open>subscribe\<close> returns \<open>undefined\<close>, enqueues nothing and only registers the
  callback through \<open>addCallback\<close>; \<open>unsubscribe\<close> on a node that is not (a
  parameter and a stream) returns \<open>undefined\<close> and leaves the session as it was.
\<close>

theorem subscribe_without_stream:
  shows "(\<not> ((isParameter qnode \<or> isMatrix qnode) \<and> isStream qnode) \<longrightarrow>
            subscribe qnode cb s = (None, log (AddCallback (npath qnode) cb) s)
            \<and> pendingRequests (snd (subscribe qnode cb s)) = pendingRequests s
            \<and> activeRequest (snd (subscribe qnode cb s)) = activeRequest s
            \<and> sentOf (events (snd (subscribe qnode cb s))) = sentOf (events s))
       \<and> (\<not> (isParameter qnode \<and> isStream qnode) \<longrightarrow> unsubscribe qnode cb s = (None, s))"
  by (simp add: subscribe_def unsubscribe_def log_def sentOf_def)

theorem subscribe_without_stream_witness:
  "\<not> ((isParameter sampleParameter \<or> isMatrix sampleParameter) \<and> isStream sampleParameter)
   \<and> subscribe sampleParameter 0 busySession
       = (None, log (AddCallback (npath sampleParameter) 0) busySession)
   \<and> \<not> (isParameter sampleMatrix \<and> isStream sampleMatrix)
   \<and> unsubscribe sampleMatrix 0 busySession = (None, busySession)"
proof -
  have a: "\<not> ((isParameter sampleParameter \<or> isMatrix sampleParameter) \<and> isStream sampleParameter)"
    by (simp add: sampleParameter_def isStream_def)
  have b: "\<not> (isParameter sampleMatrix \<and> isStream sampleMatrix)"
    by (simp add: sampleMatrix_def isStream_def)
  from subscribe_without_stream[of sampleParameter 0 busySession] a
       subscribe_without_stream[of sampleMatrix 0 busySession] b
  show ?thesis by simp
qed

end
